theory Spec2Isabelle
  imports Complex_Main
begin

section \<open>The teleprompter window: data model\<close>

text \<open>
  The program is one class, \<open>TeleprompterWindow\<close> (\<open>src/teleprompter.py\<close>), whose
  methods are the slots of a Qt window. Each method becomes a function from the state of
  the window to its new state. The state holds the attributes the class declares and the
  properties of the widgets the methods read or write.
\<close>

type_synonym point = "int \<times> int"
type_synonym qsize = "int \<times> int"

definition point_sub :: "point \<Rightarrow> point \<Rightarrow> point" where
  "point_sub p q = (fst p - fst q, snd p - snd q)"

datatype window_flag =
  FramelessWindowHint | WindowStaysOnTopHint | Tool | X11BypassWindowManagerHint

datatype cursor_shape = ArrowCursor | SizeFDiagCursor

datatype mouse_button = NoButton | LeftButton | RightButton | MiddleButton

datatype modifier = ShiftModifier | ControlModifier | AltModifier | MetaModifier

datatype key =
  Key_L | Key_S | Key_C | Key_H | Key_U | Key_Up | Key_Down | Key_Other nat

datatype event_type = KeyPress | KeyRelease | OtherEvent

text \<open>
  The event handed to \<open>eventFilter\<close>. \<open>event.modifiers() == Qt.ControlModifier\<close> compares
  the whole set of modifiers held, so the modifiers are a set and the test is equality
  with a singleton.
\<close>

record qevent =
  ev_type :: event_type
  ev_key :: key
  ev_modifiers :: "modifier set"

text \<open>
  A mouse event: \<open>event.x()\<close>, \<open>event.y()\<close> (position inside the window),
  \<open>event.globalPos()\<close>, \<open>event.button()\<close> (the button that caused the event) and
  \<open>event.buttons()\<close> (the buttons held, compared as a whole with \<open>Qt.LeftButton\<close>).
\<close>

record mouse_event =
  me_x :: int
  me_y :: int
  me_global :: point
  me_button :: mouse_button
  me_buttons :: "mouse_button set"

record qcolor =
  c_valid :: bool
  c_red :: int
  c_green :: int
  c_blue :: int

text \<open>
  What the colour dialog answers: the result of \<open>dialog.exec_()\<close> and
  \<open>dialog.selectedColor()\<close>.
\<close>

type_synonym dialog_answer = "bool \<times> qcolor"

text \<open>
  The sliders of the control strip and the vertical scroll bar of the text surface are
  all \<open>QAbstractSlider\<close>s: a range and a value inside it. \<open>setValue\<close> forces the value
  into the range (\<open>qBound\<close>), and \<open>setRange lo hi\<close> stores \<open>lo\<close> and \<open>max lo hi\<close> and
  forces the current value into the new range. This is the contract of the toolkit the
  spec relies on when it says that sliders clamp at the UI layer.
\<close>

record slider =
  sl_minimum :: int
  sl_maximum :: int
  sl_value :: int

definition qBound :: "int \<Rightarrow> int \<Rightarrow> int \<Rightarrow> int" where
  "qBound lo v hi = max lo (min hi v)"

definition slider_setValue :: "int \<Rightarrow> slider \<Rightarrow> slider" where
  "slider_setValue v sl = sl\<lparr>sl_value := qBound (sl_minimum sl) v (sl_maximum sl)\<rparr>"

definition slider_setRange :: "int \<Rightarrow> int \<Rightarrow> slider \<Rightarrow> slider" where
  "slider_setRange lo hi sl =
     slider_setValue (sl_value sl) (sl\<lparr>sl_minimum := lo, sl_maximum := max lo hi\<rparr>)"

text \<open>The one line the program prints after start-up (in \<open>toggle_lock\<close>, on locking).\<close>

datatype notice = LockedNotice

text \<open>
  Reading an attribute that was never assigned raises \<open>AttributeError\<close>; subtracting
  \<open>None\<close> from a point raises \<open>TypeError\<close>.
\<close>

datatype error = AttributeError | TypeError

text \<open>
  The state. The first block is the attributes \<open>__init__\<close> assigns. \<open>resizing\<close>,
  \<open>resize_start_pos\<close> and \<open>resize_start_size\<close> are not assigned there: they exist only
  after the first press on the resize corner, so they are options with \<open>None\<close> for an
  attribute that does not exist yet (\<open>hasattr(self, 'resizing')\<close> is \<open>resizing \<noteq> None\<close>).
  \<open>transparency\<close> is a Python float; it is kept as a rational and no statement below
  depends on its rounding. The style sheets of the colour button and of the text surface
  are represented by the colour they embed.
\<close>

record teleprompter =
  resize_enabled :: bool
  locked :: bool
  scrolling :: bool
  scroll_speed :: int
  transparency :: rat
  font_color :: qcolor
  font_size :: int
  font_family :: string
  dragging :: bool
  drag_position :: "point option"
  resizing :: "bool option"
  resize_start_pos :: "point option"
  resize_start_size :: "qsize option"
  window_flags :: "window_flag set"
  win_visible :: bool
  win_pos :: point
  win_size :: qsize
  minimum_width :: int
  minimum_height :: int
  window_opacity :: rat
  win_cursor :: cursor_shape
  control_panel_visible :: bool
  font_combo_enabled :: bool
  size_slider_enabled :: bool
  color_button_enabled :: bool
  trans_slider_enabled :: bool
  scroll_slider_enabled :: bool
  lock_button_enabled :: bool
  scroll_button_enabled :: bool
  lock_button_text :: string
  scroll_button_text :: string
  color_button_color :: qcolor
  size_slider :: slider
  trans_slider :: slider
  scroll_slider :: slider
  text_read_only :: bool
  text_color :: qcolor
  text_font_family :: string
  text_font_size :: int
  vscroll :: slider
  scroll_timer_active :: bool
  scroll_timer_interval :: int
  printed :: "notice list"

section \<open>The state after construction\<close>

text \<open>
  \<open>__init__\<close>, \<open>init_ui\<close> and \<open>setup_shortcuts\<close>: the window flags requested, the
  minimum size \<open>300 \<times> 200\<close>, the defaults of the attributes, the ranges and start values
  of the three sliders, size \<open>600 \<times> 400\<close> at \<open>(100, 100)\<close>, opacity \<open>0.8\<close>. Widgets the
  program never disables start enabled, the text surface starts editable and empty (so
  its scroll bar has the range \<open>0..0\<close>), and a new \<open>QTimer\<close> is not running: these are the
  toolkit's defaults for what the constructor does not set.
\<close>

definition lock_window_flags :: "window_flag set" where
  "lock_window_flags =
     {FramelessWindowHint, WindowStaysOnTopHint, Tool, X11BypassWindowManagerHint}"

definition white :: qcolor where
  "white = \<lparr>c_valid = True, c_red = 255, c_green = 255, c_blue = 255\<rparr>"

definition init_state :: teleprompter where
  "init_state =
     \<lparr>resize_enabled = True, locked = False, scrolling = False, scroll_speed = 1,
      transparency = 4 / 5, font_color = white, font_size = 18, font_family = ''Arial'',
      dragging = False, drag_position = None,
      resizing = None, resize_start_pos = None, resize_start_size = None,
      window_flags = lock_window_flags, win_visible = True,
      win_pos = (100, 100), win_size = (600, 400),
      minimum_width = 300, minimum_height = 200,
      window_opacity = 4 / 5, win_cursor = ArrowCursor,
      control_panel_visible = True,
      font_combo_enabled = True, size_slider_enabled = True, color_button_enabled = True,
      trans_slider_enabled = True, scroll_slider_enabled = True,
      lock_button_enabled = True, scroll_button_enabled = True,
      lock_button_text = ''Lock Position'', scroll_button_text = ''Start Scrolling'',
      color_button_color = white,
      size_slider = \<lparr>sl_minimum = 8, sl_maximum = 72, sl_value = 18\<rparr>,
      trans_slider = \<lparr>sl_minimum = 10, sl_maximum = 100, sl_value = 80\<rparr>,
      scroll_slider = \<lparr>sl_minimum = 1, sl_maximum = 10, sl_value = 1\<rparr>,
      text_read_only = False, text_color = white,
      text_font_family = ''Arial'', text_font_size = 18,
      vscroll = \<lparr>sl_minimum = 0, sl_maximum = 0, sl_value = 0\<rparr>,
      scroll_timer_active = False, scroll_timer_interval = 0,
      printed = []\<rparr>"

section \<open>The slots\<close>

subsection \<open>Lock mode\<close>

text \<open>
  \<open>toggle_lock\<close>: flip the flag, then set the flags of the window (the same four in both
  branches; \<open>setWindowFlags\<close> hides the window, \<open>show\<close> at the end shows it again), the
  text of the lock button, the enabled flag of every control and the read-only flag of
  the text surface. \<open>activateWindow\<close> and \<open>raise_\<close> only ask the window manager to bring
  the window to the front and leave no state the program reads.
\<close>

definition toggle_lock :: "teleprompter \<Rightarrow> teleprompter" where
  "toggle_lock s =
     (let s1 = s\<lparr>locked := \<not> locked s\<rparr>;
          s2 = (if locked s1 then
                  s1\<lparr>window_flags := lock_window_flags, win_visible := False,
                     lock_button_text := ''Unlock Position'',
                     font_combo_enabled := False, size_slider_enabled := False,
                     color_button_enabled := False, trans_slider_enabled := False,
                     scroll_slider_enabled := False, text_read_only := True,
                     lock_button_enabled := True, scroll_button_enabled := True,
                     printed := printed s1 @ [LockedNotice]\<rparr>
                else
                  s1\<lparr>window_flags := lock_window_flags, win_visible := False,
                     lock_button_text := ''Lock Position'',
                     font_combo_enabled := True, size_slider_enabled := True,
                     color_button_enabled := True, trans_slider_enabled := True,
                     scroll_slider_enabled := True, text_read_only := False,
                     lock_button_enabled := True, scroll_button_enabled := True\<rparr>)
      in s2\<lparr>win_visible := True\<rparr>)"

definition emergency_unlock :: "teleprompter \<Rightarrow> teleprompter" where
  "emergency_unlock s = (if locked s then toggle_lock s else s)"

subsection \<open>Scroll mode\<close>

definition toggle_scrolling :: "teleprompter \<Rightarrow> teleprompter" where
  "toggle_scrolling s =
     (let s1 = s\<lparr>scrolling := \<not> scrolling s\<rparr>
      in if scrolling s1 then
           s1\<lparr>scroll_timer_active := True, scroll_timer_interval := 50,
              scroll_button_text := ''Stop Scrolling''\<rparr>
         else
           s1\<lparr>scroll_timer_active := False, scroll_button_text := ''Start Scrolling''\<rparr>)"

text \<open>
  \<open>scrollbar.setValue(scrollbar.value() + d)\<close> on the vertical scroll bar of the text
  surface.
\<close>

definition vscroll_by :: "int \<Rightarrow> teleprompter \<Rightarrow> teleprompter" where
  "vscroll_by d s = s\<lparr>vscroll := slider_setValue (sl_value (vscroll s) + d) (vscroll s)\<rparr>"

definition auto_scroll :: "teleprompter \<Rightarrow> teleprompter" where
  "auto_scroll s = vscroll_by (scroll_speed s) s"

definition scroll_up :: "teleprompter \<Rightarrow> teleprompter" where
  "scroll_up s = vscroll_by (- 10) s"

definition scroll_down :: "teleprompter \<Rightarrow> teleprompter" where
  "scroll_down s = vscroll_by 10 s"

definition change_scroll_speed :: "int \<Rightarrow> teleprompter \<Rightarrow> teleprompter" where
  "change_scroll_speed v s = s\<lparr>scroll_speed := v\<rparr>"

text \<open>
  \<open>scroll_slider.setValue(v)\<close>, by the program or by the user moving the slider: the
  slider forces \<open>v\<close> into its range and, when its value changes, emits \<open>valueChanged\<close>,
  which is connected to \<open>change_scroll_speed\<close>.
\<close>

definition scroll_slider_setValue :: "int \<Rightarrow> teleprompter \<Rightarrow> teleprompter" where
  "scroll_slider_setValue v s =
     (let sl = slider_setValue v (scroll_slider s)
      in if sl_value sl = sl_value (scroll_slider s) then s
         else change_scroll_speed (sl_value sl) (s\<lparr>scroll_slider := sl\<rparr>))"

definition increase_scroll_speed :: "teleprompter \<Rightarrow> teleprompter" where
  "increase_scroll_speed s =
     (let s1 = s\<lparr>scroll_speed := min (scroll_speed s + 1) 10\<rparr>
      in scroll_slider_setValue (scroll_speed s1) s1)"

definition decrease_scroll_speed :: "teleprompter \<Rightarrow> teleprompter" where
  "decrease_scroll_speed s =
     (let s1 = s\<lparr>scroll_speed := max (scroll_speed s - 1) 1\<rparr>
      in scroll_slider_setValue (scroll_speed s1) s1)"

subsection \<open>Style\<close>

definition change_font_family :: "string \<Rightarrow> teleprompter \<Rightarrow> teleprompter" where
  "change_font_family family s = s\<lparr>font_family := family, text_font_family := family\<rparr>"

definition change_font_size :: "int \<Rightarrow> teleprompter \<Rightarrow> teleprompter" where
  "change_font_size n s = s\<lparr>font_size := n, text_font_size := n\<rparr>"

definition size_slider_setValue :: "int \<Rightarrow> teleprompter \<Rightarrow> teleprompter" where
  "size_slider_setValue v s =
     (let sl = slider_setValue v (size_slider s)
      in if sl_value sl = sl_value (size_slider s) then s
         else change_font_size (sl_value sl) (s\<lparr>size_slider := sl\<rparr>))"

definition change_font_color :: "dialog_answer \<Rightarrow> teleprompter \<Rightarrow> teleprompter" where
  "change_font_color answer s =
     (if fst answer then
        (let color = snd answer
         in if c_valid color then
              s\<lparr>font_color := color, color_button_color := color, text_color := color\<rparr>
            else s)
      else s)"

definition change_transparency :: "int \<Rightarrow> teleprompter \<Rightarrow> teleprompter" where
  "change_transparency v s =
     (let s1 = s\<lparr>transparency := of_int v / 100\<rparr>
      in s1\<lparr>window_opacity := transparency s1\<rparr>)"

definition trans_slider_setValue :: "int \<Rightarrow> teleprompter \<Rightarrow> teleprompter" where
  "trans_slider_setValue v s =
     (let sl = slider_setValue v (trans_slider s)
      in if sl_value sl = sl_value (trans_slider s) then s
         else change_transparency (sl_value sl) (s\<lparr>trans_slider := sl\<rparr>))"

definition toggle_controls :: "teleprompter \<Rightarrow> teleprompter" where
  "toggle_controls s = s\<lparr>control_panel_visible := \<not> control_panel_visible s\<rparr>"

subsection \<open>Mouse gestures\<close>

text \<open>
  The test both mouse handlers make for the resize corner. \<open>self.rect()\<close> is the
  rectangle \<open>(0, 0, width, height)\<close>, whose \<open>bottomRight()\<close> is \<open>(width - 1, height - 1)\<close>.
\<close>

definition corner_size :: int where
  "corner_size = 20"

definition in_corner :: "mouse_event \<Rightarrow> teleprompter \<Rightarrow> bool" where
  "in_corner e s =
     (fst (win_size s) - 1 - me_x e < corner_size \<and>
      snd (win_size s) - 1 - me_y e < corner_size)"

text \<open>
  \<open>mousePressEvent\<close>. \<open>on_button\<close> is what \<open>self.lock_button.underMouse()\<close> answers. The
  window has no frame, so \<open>frameGeometry().topLeft()\<close> is the origin of the window.
\<close>

definition mousePressEvent :: "mouse_event \<Rightarrow> bool \<Rightarrow> teleprompter \<Rightarrow> teleprompter" where
  "mousePressEvent e on_button s =
     (if resize_enabled s \<and> in_corner e s then
        s\<lparr>win_cursor := SizeFDiagCursor, dragging := False, resizing := Some True,
          resize_start_pos := Some (me_global e), resize_start_size := Some (win_size s)\<rparr>
      else if locked s \<and> on_button then toggle_lock s
      else if \<not> locked s \<and> me_button e = LeftButton then
        s\<lparr>dragging := True, resizing := Some False,
          drag_position := Some (point_sub (me_global e) (win_pos s))\<rparr>
      else s)"

definition hover_cursor :: "mouse_event \<Rightarrow> teleprompter \<Rightarrow> teleprompter" where
  "hover_cursor e s =
     (if resize_enabled s then
        (if in_corner e s then s\<lparr>win_cursor := SizeFDiagCursor\<rparr>
         else s\<lparr>win_cursor := ArrowCursor\<rparr>)
      else s)"

text \<open>
  \<open>mouseMoveEvent\<close>. Its two tests: a resize is going on (\<open>hasattr(self, 'resizing') and
  self.resizing\<close> is \<open>resizing s = Some True\<close>) with the left button alone held, or a
  drag is going on, the window is not locked and the left button alone is held. The
  resize branch reads \<open>resize_start_pos\<close> and \<open>resize_start_size\<close>, the drag branch
  subtracts \<open>drag_position\<close>; where one of them was never assigned the handler raises.
  The new size is the one the handler passes to \<open>resize\<close>; it is at least the minimum
  size already, and the program sets no maximum.
\<close>

definition resize_active :: "mouse_event \<Rightarrow> teleprompter \<Rightarrow> bool" where
  "resize_active e s =
     (resize_enabled s \<and> resizing s = Some True \<and> me_buttons e = {LeftButton})"

definition drag_active :: "mouse_event \<Rightarrow> teleprompter \<Rightarrow> bool" where
  "drag_active e s = (\<not> locked s \<and> dragging s \<and> me_buttons e = {LeftButton})"

definition mouseMoveEvent :: "mouse_event \<Rightarrow> teleprompter \<Rightarrow> error + teleprompter" where
  "mouseMoveEvent e s =
     (if resize_active e s then
        (case resize_start_pos s of
           None \<Rightarrow> Inl AttributeError
         | Some start_pos \<Rightarrow>
             (case resize_start_size s of
                None \<Rightarrow> Inl AttributeError
              | Some start_size \<Rightarrow>
                  (let diff = point_sub (me_global e) start_pos;
                       new_width = max (minimum_width s) (fst start_size + fst diff);
                       new_height = max (minimum_height s) (snd start_size + snd diff)
                   in Inr (s\<lparr>win_size := (new_width, new_height)\<rparr>))))
      else if drag_active e s then
        (case drag_position s of
           None \<Rightarrow> Inl TypeError
         | Some d \<Rightarrow> Inr (hover_cursor e (s\<lparr>win_pos := point_sub (me_global e) d\<rparr>)))
      else Inr (hover_cursor e s))"

definition mouseReleaseEvent :: "mouse_event \<Rightarrow> teleprompter \<Rightarrow> teleprompter" where
  "mouseReleaseEvent e s =
     (if me_button e = LeftButton then
        (let s1 = s\<lparr>dragging := False\<rparr>
         in if resizing s1 \<noteq> None then s1\<lparr>resizing := Some False\<rparr> else s1)
      else s)"

subsection \<open>The event filter\<close>

text \<open>
  \<open>eventFilter\<close> returns whether the event is consumed, and the new state. Every branch
  of the source returns, so the chain of tests is one chain here, in the source's order.
  \<open>super().eventFilter\<close> is the default of the toolkit: it consumes nothing.
\<close>

definition eventFilter ::
  "qevent \<Rightarrow> dialog_answer \<Rightarrow> teleprompter \<Rightarrow> bool \<times> teleprompter" where
  "eventFilter ev answer s =
     (if ev_type ev = KeyPress then
        (if ev_key ev = Key_L \<and> ev_modifiers ev = {ControlModifier} then
           (True, toggle_lock s)
         else if ev_key ev = Key_S \<and> ev_modifiers ev = {ControlModifier} then
           (True, toggle_scrolling s)
         else if locked s then (True, s)
         else if ev_key ev = Key_Up \<and> ev_modifiers ev = {ShiftModifier} then
           (True, scroll_up s)
         else if ev_key ev = Key_Down \<and> ev_modifiers ev = {ShiftModifier} then
           (True, scroll_down s)
         else if ev_key ev = Key_C \<and> ev_modifiers ev = {ControlModifier} then
           (True, change_font_color answer s)
         else if ev_key ev = Key_H \<and> ev_modifiers ev = {ControlModifier} then
           (True, toggle_controls s)
         else if ev_key ev = Key_Up \<and> ev_modifiers ev = {ControlModifier} then
           (True, increase_scroll_speed s)
         else if ev_key ev = Key_Down \<and> ev_modifiers ev = {ControlModifier} then
           (True, decrease_scroll_speed s)
         else (False, s))
      else (False, s))"

definition key_press :: "key \<Rightarrow> modifier set \<Rightarrow> qevent" where
  "key_press k m = \<lparr>ev_type = KeyPress, ev_key = k, ev_modifiers = m\<rparr>"

section \<open>Events and reachable states\<close>

text \<open>
  The shortcut objects \<open>setup_shortcuts\<close> and \<open>__init__\<close> create: the key sequence of
  each and the slot its \<open>activated\<close> signal is connected to.
\<close>

datatype shortcut =
    LockShortcut | ScrollShortcut | ColorShortcut | SpeedUpShortcut | SpeedDownShortcut
  | ScrollUpShortcut | ScrollDownShortcut | HideControlsShortcut | EmergencyUnlockShortcut

fun shortcut_sequence :: "shortcut \<Rightarrow> key \<times> modifier set" where
  "shortcut_sequence LockShortcut = (Key_L, {ControlModifier})"
| "shortcut_sequence ScrollShortcut = (Key_S, {ControlModifier})"
| "shortcut_sequence ColorShortcut = (Key_C, {ControlModifier})"
| "shortcut_sequence SpeedUpShortcut = (Key_Up, {ControlModifier})"
| "shortcut_sequence SpeedDownShortcut = (Key_Down, {ControlModifier})"
| "shortcut_sequence ScrollUpShortcut = (Key_Up, {ShiftModifier})"
| "shortcut_sequence ScrollDownShortcut = (Key_Down, {ShiftModifier})"
| "shortcut_sequence HideControlsShortcut = (Key_H, {ControlModifier})"
| "shortcut_sequence EmergencyUnlockShortcut = (Key_U, {ControlModifier, AltModifier})"

fun shortcut_slot :: "shortcut \<Rightarrow> dialog_answer \<Rightarrow> teleprompter \<Rightarrow> teleprompter" where
  "shortcut_slot LockShortcut answer s = toggle_lock s"
| "shortcut_slot ScrollShortcut answer s = toggle_scrolling s"
| "shortcut_slot ColorShortcut answer s = change_font_color answer s"
| "shortcut_slot SpeedUpShortcut answer s = increase_scroll_speed s"
| "shortcut_slot SpeedDownShortcut answer s = decrease_scroll_speed s"
| "shortcut_slot ScrollUpShortcut answer s = scroll_up s"
| "shortcut_slot ScrollDownShortcut answer s = scroll_down s"
| "shortcut_slot HideControlsShortcut answer s = toggle_controls s"
| "shortcut_slot EmergencyUnlockShortcut answer s = emergency_unlock s"

text \<open>
  The timer calls \<open>auto_scroll\<close> on every timeout, and times out only while it runs.
\<close>

definition timer_timeout :: "teleprompter \<Rightarrow> teleprompter" where
  "timer_timeout s = (if scroll_timer_active s then auto_scroll s else s)"

fun ticks :: "nat \<Rightarrow> teleprompter \<Rightarrow> teleprompter" where
  "ticks 0 s = s"
| "ticks (Suc n) s = ticks n (timer_timeout s)"

text \<open>
  Everything that can happen to the window: a signal of a widget, of a shortcut or of the
  timer calling its slot, an event reaching \<open>eventFilter\<close> or a mouse handler, and what
  the platform does on its own to state the slots read: the layout of the text changing
  the range of the scroll bar, the user moving the scroll bar, and the size grip resizing
  the window (never below its minimum size). How the toolkit routes a key between the
  shortcut objects and the event filter is not part of the program, so both ways in are
  events here, and the set of reachable states is at least that of the running program.
\<close>

datatype ui_event =
    LockButtonClicked
  | ScrollButtonClicked
  | ColorButtonClicked dialog_answer
  | FontComboChanged string
  | SizeSliderMoved int
  | TransSliderMoved int
  | ScrollSliderMoved int
  | ShortcutActivated shortcut dialog_answer
  | KeyEvent qevent dialog_answer
  | TimerTimeout
  | MousePress mouse_event bool
  | MouseMove mouse_event
  | MouseRelease mouse_event
  | ScrollRangeChanged int int
  | ScrollBarMoved int
  | SizeGripResized int int

fun step :: "ui_event \<Rightarrow> teleprompter \<Rightarrow> error + teleprompter" where
  "step LockButtonClicked s = Inr (toggle_lock s)"
| "step ScrollButtonClicked s = Inr (toggle_scrolling s)"
| "step (ColorButtonClicked answer) s = Inr (change_font_color answer s)"
| "step (FontComboChanged family) s = Inr (change_font_family family s)"
| "step (SizeSliderMoved v) s = Inr (size_slider_setValue v s)"
| "step (TransSliderMoved v) s = Inr (trans_slider_setValue v s)"
| "step (ScrollSliderMoved v) s = Inr (scroll_slider_setValue v s)"
| "step (ShortcutActivated sc answer) s = Inr (shortcut_slot sc answer s)"
| "step (KeyEvent ev answer) s = Inr (snd (eventFilter ev answer s))"
| "step TimerTimeout s = Inr (timer_timeout s)"
| "step (MousePress e on_button) s = Inr (mousePressEvent e on_button s)"
| "step (MouseMove e) s = mouseMoveEvent e s"
| "step (MouseRelease e) s = Inr (mouseReleaseEvent e s)"
| "step (ScrollRangeChanged lo hi) s = Inr (s\<lparr>vscroll := slider_setRange lo hi (vscroll s)\<rparr>)"
| "step (ScrollBarMoved v) s = Inr (s\<lparr>vscroll := slider_setValue v (vscroll s)\<rparr>)"
| "step (SizeGripResized w h) s =
     Inr (s\<lparr>win_size := (max (minimum_width s) w, max (minimum_height s) h)\<rparr>)"

inductive reachable :: "teleprompter \<Rightarrow> bool" where
  reachable_init: "reachable init_state"
| reachable_step: "reachable s \<Longrightarrow> step e s = Inr s' \<Longrightarrow> reachable s'"

fun run :: "ui_event list \<Rightarrow> teleprompter \<Rightarrow> error + teleprompter" where
  "run [] s = Inr s"
| "run (e # es) s = (case step e s of Inl err \<Rightarrow> Inl err | Inr s' \<Rightarrow> run es s')"

text \<open>The enabled flags of the controls and the read-only flag of the text surface.\<close>

definition control_flags ::
  "teleprompter \<Rightarrow> bool \<times> bool \<times> bool \<times> bool \<times> bool \<times> bool \<times> bool \<times> bool" where
  "control_flags s =
     (font_combo_enabled s, size_slider_enabled s, color_button_enabled s,
      trans_slider_enabled s, scroll_slider_enabled s, lock_button_enabled s,
      scroll_button_enabled s, text_read_only s)"

text \<open>Invariants of the reachable states, one per part of the state.\<close>

definition controls_ok :: "teleprompter \<Rightarrow> bool" where
  "controls_ok s =
     (lock_button_enabled s \<and> scroll_button_enabled s \<and>
      font_combo_enabled s = (\<not> locked s) \<and> size_slider_enabled s = (\<not> locked s) \<and>
      color_button_enabled s = (\<not> locked s) \<and> trans_slider_enabled s = (\<not> locked s) \<and>
      scroll_slider_enabled s = (\<not> locked s) \<and> text_read_only s = locked s)"

definition timer_ok :: "teleprompter \<Rightarrow> bool" where
  "timer_ok s =
     (scroll_timer_active s = scrolling s \<and>
      (scrolling s \<longrightarrow> scroll_timer_interval s = 50))"

definition speed_ok :: "teleprompter \<Rightarrow> bool" where
  "speed_ok s =
     (sl_minimum (scroll_slider s) = 1 \<and> sl_maximum (scroll_slider s) = 10 \<and>
      sl_value (scroll_slider s) = scroll_speed s \<and>
      1 \<le> scroll_speed s \<and> scroll_speed s \<le> 10)"

definition geometry_ok :: "teleprompter \<Rightarrow> bool" where
  "geometry_ok s =
     (resize_enabled s \<and> minimum_width s = 300 \<and> minimum_height s = 200 \<and>
      300 \<le> fst (win_size s) \<and> 200 \<le> snd (win_size s) \<and>
      (resizing s = Some True \<longrightarrow>
         resize_start_pos s \<noteq> None \<and> resize_start_size s \<noteq> None) \<and>
      (dragging s \<longrightarrow> drag_position s \<noteq> None))"

definition state_ok :: "teleprompter \<Rightarrow> bool" where
  "state_ok s = (controls_ok s \<and> timer_ok s \<and> speed_ok s \<and> geometry_ok s)"

text \<open>
  The shortcuts \<open>eventFilter\<close> handles after its test of the lock flag, in the order of
  its branches: Shift+Up, Shift+Down, Ctrl+C, Ctrl+H, Ctrl+Up, Ctrl+Down.
\<close>

definition other_shortcuts :: "(key \<times> modifier set) list" where
  "other_shortcuts =
     [(Key_Up, {ShiftModifier}), (Key_Down, {ShiftModifier}),
      (Key_C, {ControlModifier}), (Key_H, {ControlModifier}),
      (Key_Up, {ControlModifier}), (Key_Down, {ControlModifier})]"

text \<open>The events that call \<open>toggle_scrolling\<close>.\<close>

fun toggles_scrolling :: "ui_event \<Rightarrow> bool" where
  "toggles_scrolling ScrollButtonClicked = True"
| "toggles_scrolling (ShortcutActivated sc answer) = (sc = ScrollShortcut)"
| "toggles_scrolling (KeyEvent ev answer) =
     (ev_type ev = KeyPress \<and> ev_key ev = Key_S \<and> ev_modifiers ev = {ControlModifier})"
| "toggles_scrolling e = False"

text \<open>Two states with the same scrolling flag and the same state of the timer.\<close>

definition same_scrolling :: "teleprompter \<Rightarrow> teleprompter \<Rightarrow> bool" where
  "same_scrolling s s' =
     (scrolling s' = scrolling s \<and> scroll_timer_active s' = scroll_timer_active s)"

section \<open>Concrete states and events\<close>

text \<open>
  The window with a text whose scroll bar has the range \<open>0..3\<close>, and one with the range
  \<open>0..100\<close>; both are the state after construction once the text has been laid out.
\<close>

definition short_text_state :: teleprompter where
  "short_text_state = init_state\<lparr>vscroll := slider_setRange 0 3 (vscroll init_state)\<rparr>"

definition long_text_state :: teleprompter where
  "long_text_state = init_state\<lparr>vscroll := slider_setRange 0 100 (vscroll init_state)\<rparr>"

definition cancelled :: dialog_answer where
  "cancelled = (False, white)"

text \<open>
  Mouse events on the \<open>600 \<times> 400\<close> window at \<open>(100, 100)\<close>: a left press in the resize
  corner, a left press and a right press in the middle, a move far up and left with the
  left button held, and the releases of the left and of the right button.
\<close>

definition corner_press :: mouse_event where
  "corner_press =
     \<lparr>me_x = 595, me_y = 395, me_global = (695, 495),
      me_button = LeftButton, me_buttons = {LeftButton}\<rparr>"

definition corner_press_right :: mouse_event where
  "corner_press_right =
     \<lparr>me_x = 595, me_y = 395, me_global = (695, 495),
      me_button = RightButton, me_buttons = {RightButton}\<rparr>"

definition middle_press :: mouse_event where
  "middle_press =
     \<lparr>me_x = 300, me_y = 200, me_global = (400, 300),
      me_button = LeftButton, me_buttons = {LeftButton}\<rparr>"

definition far_move :: mouse_event where
  "far_move =
     \<lparr>me_x = - 100, me_y = - 100, me_global = (0, 0),
      me_button = NoButton, me_buttons = {LeftButton}\<rparr>"

definition left_release :: mouse_event where
  "left_release =
     \<lparr>me_x = 300, me_y = 200, me_global = (400, 300),
      me_button = LeftButton, me_buttons = {}\<rparr>"

definition right_release :: mouse_event where
  "right_release =
     \<lparr>me_x = 300, me_y = 200, me_global = (400, 300),
      me_button = RightButton, me_buttons = {LeftButton}\<rparr>"

definition right_release_corner :: mouse_event where
  "right_release_corner =
     \<lparr>me_x = 595, me_y = 395, me_global = (695, 495),
      me_button = RightButton, me_buttons = {}\<rparr>"

section \<open>Invariants of the reachable states\<close>

lemmas ok_defs = state_ok_def controls_ok_def timer_ok_def speed_ok_def geometry_ok_def

lemma init_state_ok: "state_ok init_state"
  by (simp add: ok_defs init_state_def)

lemma toggle_lock_ok: "state_ok s \<Longrightarrow> state_ok (toggle_lock s)"
  by (simp add: ok_defs toggle_lock_def Let_def)

lemma toggle_scrolling_ok: "state_ok s \<Longrightarrow> state_ok (toggle_scrolling s)"
  by (simp add: ok_defs toggle_scrolling_def Let_def)

lemma vscroll_by_ok: "state_ok s \<Longrightarrow> state_ok (vscroll_by d s)"
  by (simp add: ok_defs vscroll_by_def)

lemma scroll_slider_setValue_ok: "state_ok s \<Longrightarrow> state_ok (scroll_slider_setValue v s)"
  by (simp add: ok_defs scroll_slider_setValue_def change_scroll_speed_def
      slider_setValue_def qBound_def Let_def)

lemma increase_scroll_speed_ok: "state_ok s \<Longrightarrow> state_ok (increase_scroll_speed s)"
  by (simp add: ok_defs increase_scroll_speed_def scroll_slider_setValue_def
      change_scroll_speed_def slider_setValue_def qBound_def Let_def)

lemma decrease_scroll_speed_ok: "state_ok s \<Longrightarrow> state_ok (decrease_scroll_speed s)"
  by (simp add: ok_defs decrease_scroll_speed_def scroll_slider_setValue_def
      change_scroll_speed_def slider_setValue_def qBound_def Let_def)

lemma change_font_family_ok: "state_ok s \<Longrightarrow> state_ok (change_font_family f s)"
  by (simp add: ok_defs change_font_family_def)

lemma size_slider_setValue_ok: "state_ok s \<Longrightarrow> state_ok (size_slider_setValue v s)"
  by (simp add: ok_defs size_slider_setValue_def change_font_size_def Let_def)

lemma change_font_color_ok: "state_ok s \<Longrightarrow> state_ok (change_font_color a s)"
  by (simp add: ok_defs change_font_color_def Let_def)

lemma trans_slider_setValue_ok: "state_ok s \<Longrightarrow> state_ok (trans_slider_setValue v s)"
  by (simp add: ok_defs trans_slider_setValue_def change_transparency_def Let_def)

lemma toggle_controls_ok: "state_ok s \<Longrightarrow> state_ok (toggle_controls s)"
  by (simp add: ok_defs toggle_controls_def)

lemma emergency_unlock_ok: "state_ok s \<Longrightarrow> state_ok (emergency_unlock s)"
  by (simp add: emergency_unlock_def toggle_lock_ok)

lemma timer_timeout_ok: "state_ok s \<Longrightarrow> state_ok (timer_timeout s)"
  by (simp add: timer_timeout_def auto_scroll_def vscroll_by_ok)

lemma shortcut_slot_ok: "state_ok s \<Longrightarrow> state_ok (shortcut_slot sc a s)"
  by (cases sc)
    (simp_all add: toggle_lock_ok toggle_scrolling_ok change_font_color_ok
      increase_scroll_speed_ok decrease_scroll_speed_ok scroll_up_def scroll_down_def
      vscroll_by_ok toggle_controls_ok emergency_unlock_ok)

lemma eventFilter_ok: "state_ok s \<Longrightarrow> state_ok (snd (eventFilter ev a s))"
  by (simp add: eventFilter_def toggle_lock_ok toggle_scrolling_ok change_font_color_ok
      increase_scroll_speed_ok decrease_scroll_speed_ok scroll_up_def scroll_down_def
      vscroll_by_ok toggle_controls_ok)

lemma mousePressEvent_ok: "state_ok s \<Longrightarrow> state_ok (mousePressEvent e b s)"
  by (simp add: mousePressEvent_def toggle_lock_ok) (simp add: ok_defs)

lemma mouseReleaseEvent_ok: "state_ok s \<Longrightarrow> state_ok (mouseReleaseEvent e s)"
  by (simp add: ok_defs mouseReleaseEvent_def Let_def)

lemma mouseMoveEvent_resize:
  "resize_active e s \<Longrightarrow> resize_start_pos s = Some p \<Longrightarrow> resize_start_size s = Some z \<Longrightarrow>
   mouseMoveEvent e s =
     Inr (s\<lparr>win_size := (max (minimum_width s) (fst z + (fst (me_global e) - fst p)),
                          max (minimum_height s) (snd z + (snd (me_global e) - snd p)))\<rparr>)"
  by (simp add: mouseMoveEvent_def point_sub_def Let_def)

lemma mouseMoveEvent_drag:
  "\<not> resize_active e s \<Longrightarrow> drag_active e s \<Longrightarrow> drag_position s = Some d \<Longrightarrow>
   mouseMoveEvent e s = Inr (hover_cursor e (s\<lparr>win_pos := point_sub (me_global e) d\<rparr>))"
  by (simp add: mouseMoveEvent_def)

lemma mouseMoveEvent_hover:
  "\<not> resize_active e s \<Longrightarrow> \<not> drag_active e s \<Longrightarrow>
   mouseMoveEvent e s = Inr (hover_cursor e s)"
  by (simp add: mouseMoveEvent_def)

lemma hover_cursor_ok: "state_ok s \<Longrightarrow> state_ok (hover_cursor e s)"
  by (simp add: ok_defs hover_cursor_def)

lemma resize_active_starts:
  "state_ok s \<Longrightarrow> resize_active e s \<Longrightarrow>
   \<exists>p z. resize_start_pos s = Some p \<and> resize_start_size s = Some z"
  by (auto simp: state_ok_def geometry_ok_def resize_active_def)

lemma drag_active_position:
  "state_ok s \<Longrightarrow> drag_active e s \<Longrightarrow> \<exists>d. drag_position s = Some d"
  by (auto simp: state_ok_def geometry_ok_def drag_active_def)

lemma resized_ok:
  "state_ok s \<Longrightarrow>
   state_ok (s\<lparr>win_size := (max (minimum_width s) w, max (minimum_height s) h)\<rparr>)"
  by (simp add: ok_defs)

lemma moved_ok: "state_ok s \<Longrightarrow> state_ok (s\<lparr>win_pos := p\<rparr>)"
  by (simp add: ok_defs)

lemma scrolled_ok: "state_ok s \<Longrightarrow> state_ok (s\<lparr>vscroll := v\<rparr>)"
  by (simp add: ok_defs)

text \<open>On a state that satisfies the invariants \<open>mouseMoveEvent\<close> does not raise.\<close>

lemma mouseMoveEvent_returns:
  assumes "state_ok s"
  shows "\<exists>s'. mouseMoveEvent e s = Inr s' \<and> state_ok s'"
proof (cases "resize_active e s")
  case True
  with assms obtain p z where "resize_start_pos s = Some p" "resize_start_size s = Some z"
    using resize_active_starts by blast
  with True assms show ?thesis
    by (simp add: mouseMoveEvent_resize resized_ok)
next
  case nores: False
  show ?thesis
  proof (cases "drag_active e s")
    case True
    with assms obtain d where "drag_position s = Some d"
      using drag_active_position by blast
    with True nores assms show ?thesis
      by (simp add: mouseMoveEvent_drag hover_cursor_ok moved_ok)
  next
    case False
    with nores assms show ?thesis
      by (simp add: mouseMoveEvent_hover hover_cursor_ok)
  qed
qed

lemma mouseMoveEvent_ok: "state_ok s \<Longrightarrow> mouseMoveEvent e s = Inr s' \<Longrightarrow> state_ok s'"
  using mouseMoveEvent_returns [of s e] by auto

lemma step_ok: "state_ok s \<Longrightarrow> step e s = Inr s' \<Longrightarrow> state_ok s'"
  by (cases e)
    (auto simp: toggle_lock_ok toggle_scrolling_ok change_font_color_ok
      change_font_family_ok size_slider_setValue_ok trans_slider_setValue_ok
      scroll_slider_setValue_ok shortcut_slot_ok eventFilter_ok timer_timeout_ok
      mousePressEvent_ok mouseReleaseEvent_ok mouseMoveEvent_ok scrolled_ok resized_ok)

lemma reachable_ok: "reachable s \<Longrightarrow> state_ok s"
  by (induction rule: reachable.induct) (auto intro: init_state_ok step_ok)

text \<open>Every state a list of events leads to from a reachable state is reachable.\<close>

lemma run_reachable: "reachable s \<Longrightarrow> run es s = Inr s' \<Longrightarrow> reachable s'"
  by (induction es arbitrary: s) (auto split: sum.splits intro: reachable_step)

section \<open>Emergency unlock\<close>

text \<open>
  C1. In every state \<open>emergency_unlock\<close> leaves the window unlocked. From a locked state
  it enables every control and clears the read-only flag of the text surface; from an
  unlocked state it changes nothing.
\<close>

theorem emergency_unlock_unlocks:
  "\<not> locked (emergency_unlock s) \<and>
   (locked s \<longrightarrow>
      control_flags (emergency_unlock s) = (True, True, True, True, True, True, True, False)) \<and>
   (\<not> locked s \<longrightarrow> emergency_unlock s = s)"
  by (simp add: emergency_unlock_def toggle_lock_def control_flags_def Let_def)

theorem emergency_unlock_unlocks_witness:
  "locked (toggle_lock init_state) \<and>
   \<not> locked (emergency_unlock (toggle_lock init_state)) \<and>
   control_flags (emergency_unlock (toggle_lock init_state)) =
     (True, True, True, True, True, True, True, False) \<and>
   \<not> locked init_state \<and> emergency_unlock init_state = init_state"
proof -
  have l: "locked (toggle_lock init_state)"
    by (simp add: toggle_lock_def init_state_def Let_def)
  have u: "\<not> locked init_state"
    by (simp add: init_state_def)
  show ?thesis
    using l u emergency_unlock_unlocks [of "toggle_lock init_state"]
      emergency_unlock_unlocks [of init_state]
    by simp
qed

text \<open>
  The event filter itself does not call \<open>emergency_unlock\<close>: while the window is locked
  it consumes a press of Ctrl+Alt+U like any key other than Ctrl+L and Ctrl+S. The
  unlock is a slot of the shortcut object only.
\<close>

lemma eventFilter_locked_consumes:
  "locked s \<Longrightarrow> ev_type ev = KeyPress \<Longrightarrow>
   \<not> (ev_key ev = Key_L \<and> ev_modifiers ev = {ControlModifier}) \<Longrightarrow>
   \<not> (ev_key ev = Key_S \<and> ev_modifiers ev = {ControlModifier}) \<Longrightarrow>
   eventFilter ev a s = (True, s)"
  by (auto simp: eventFilter_def)

lemma eventFilter_locked_emergency_key:
  "locked s \<Longrightarrow> eventFilter (key_press Key_U {ControlModifier, AltModifier}) a s = (True, s)"
  by (simp add: eventFilter_locked_consumes key_press_def)

section \<open>The event filter\<close>

lemma eventFilter_lock_key:
  "eventFilter (key_press Key_L {ControlModifier}) a s = (True, toggle_lock s)"
  by (simp add: eventFilter_def key_press_def)

lemma eventFilter_scroll_key:
  "eventFilter (key_press Key_S {ControlModifier}) a s = (True, toggle_scrolling s)"
  by (simp add: eventFilter_def key_press_def)

text \<open>While the window is not locked, each of the other shortcuts reaches its slot.\<close>

lemma eventFilter_unlocked_dispatch:
  assumes "\<not> locked s"
  shows "eventFilter (key_press Key_Up {ShiftModifier}) a s = (True, scroll_up s)"
    and "eventFilter (key_press Key_Down {ShiftModifier}) a s = (True, scroll_down s)"
    and "eventFilter (key_press Key_C {ControlModifier}) a s = (True, change_font_color a s)"
    and "eventFilter (key_press Key_H {ControlModifier}) a s = (True, toggle_controls s)"
    and "eventFilter (key_press Key_Up {ControlModifier}) a s = (True, increase_scroll_speed s)"
    and "eventFilter (key_press Key_Down {ControlModifier}) a s = (True, decrease_scroll_speed s)"
  using assms by (simp_all add: eventFilter_def key_press_def)

lemma reachable_toggle_lock: "reachable s \<Longrightarrow> reachable (toggle_lock s)"
  using reachable_step [of s LockButtonClicked] by simp

lemma reachable_locked_init: "reachable (toggle_lock init_state)"
  by (rule reachable_toggle_lock) (rule reachable_init)

lemma locked_after_first_lock: "locked (toggle_lock init_state)"
  by (simp add: toggle_lock_def init_state_def Let_def)

text \<open>
  The side of the lock that holds. In every reachable state the lock button and the
  scroll button are enabled, and a press of Ctrl+L or Ctrl+S that reaches the event
  filter calls \<open>toggle_lock\<close> or \<open>toggle_scrolling\<close>, whatever the lock flag; so do the
  shortcut objects of the two key sequences. While the window is locked, the event
  filter consumes a press of each of the other shortcuts (Shift+Up, Shift+Down, Ctrl+C,
  Ctrl+H, Ctrl+Up, Ctrl+Down) and leaves the state as it is.
\<close>

lemma always_escapable:
  assumes "reachable s"
  shows "lock_button_enabled s \<and> scroll_button_enabled s \<and>
     eventFilter (key_press Key_L {ControlModifier}) a s = (True, toggle_lock s) \<and>
     eventFilter (key_press Key_S {ControlModifier}) a s = (True, toggle_scrolling s) \<and>
     shortcut_sequence LockShortcut = (Key_L, {ControlModifier}) \<and>
     shortcut_slot LockShortcut a s = toggle_lock s \<and>
     shortcut_sequence ScrollShortcut = (Key_S, {ControlModifier}) \<and>
     shortcut_slot ScrollShortcut a s = toggle_scrolling s \<and>
     (locked s \<longrightarrow>
        (\<forall>(k, m) \<in> set other_shortcuts. eventFilter (key_press k m) a s = (True, s)))"
proof -
  from assms have "state_ok s" by (rule reachable_ok)
  then have buttons: "lock_button_enabled s \<and> scroll_button_enabled s"
    by (simp add: state_ok_def controls_ok_def)
  have blocked: "\<forall>(k, m) \<in> set other_shortcuts. eventFilter (key_press k m) a s = (True, s)"
    if "locked s"
    using that
    by (simp add: other_shortcuts_def eventFilter_locked_consumes key_press_def)
  show ?thesis
    using buttons blocked
    by (simp add: eventFilter_lock_key eventFilter_scroll_key)
qed

lemma always_escapable_example:
  "reachable (toggle_lock init_state) \<and> locked (toggle_lock init_state) \<and>
   lock_button_enabled (toggle_lock init_state) \<and>
   scroll_button_enabled (toggle_lock init_state) \<and>
   eventFilter (key_press Key_L {ControlModifier}) cancelled (toggle_lock init_state) =
     (True, toggle_lock (toggle_lock init_state)) \<and>
   eventFilter (key_press Key_Up {ShiftModifier}) cancelled (toggle_lock init_state) =
     (True, toggle_lock init_state) \<and>
   eventFilter (key_press Key_Down {ControlModifier}) cancelled (toggle_lock init_state) =
     (True, toggle_lock init_state)"
  using always_escapable [OF reachable_locked_init, of cancelled]
    reachable_locked_init locked_after_first_lock
  by (simp add: other_shortcuts_def)

section \<open>Scroll speed\<close>

lemma increase_scroll_speed_value:
  "speed_ok s \<Longrightarrow> scroll_speed (increase_scroll_speed s) = min (scroll_speed s + 1) 10"
  by (simp add: speed_ok_def increase_scroll_speed_def scroll_slider_setValue_def
      change_scroll_speed_def slider_setValue_def qBound_def Let_def)

lemma decrease_scroll_speed_value:
  "speed_ok s \<Longrightarrow> scroll_speed (decrease_scroll_speed s) = max (scroll_speed s - 1) 1"
  by (simp add: speed_ok_def decrease_scroll_speed_def scroll_slider_setValue_def
      change_scroll_speed_def slider_setValue_def qBound_def Let_def)

lemma scroll_slider_setValue_value:
  "speed_ok s \<Longrightarrow> scroll_speed (scroll_slider_setValue v s) = qBound 1 v 10"
  by (simp add: speed_ok_def scroll_slider_setValue_def
      change_scroll_speed_def slider_setValue_def Let_def)

text \<open>
  C3. In every reachable state the scroll speed is in \<open>[1, 10]\<close>.
  \<open>increase_scroll_speed\<close> makes it \<open>min (speed + 1) 10\<close> (so 10 stays 10),
  \<open>decrease_scroll_speed\<close> makes it \<open>max (speed - 1) 1\<close> (so 1 stays 1), and moving the
  speed slider to \<open>v\<close> makes it \<open>v\<close> forced into the slider's range \<open>[1, 10]\<close>, which is
  the value the slider hands to \<open>change_scroll_speed\<close>.
\<close>

theorem scroll_speed_in_range:
  assumes "reachable s"
  shows "1 \<le> scroll_speed s \<and> scroll_speed s \<le> 10 \<and>
     scroll_speed (increase_scroll_speed s) = min (scroll_speed s + 1) 10 \<and>
     1 \<le> scroll_speed (increase_scroll_speed s) \<and>
     scroll_speed (increase_scroll_speed s) \<le> 10 \<and>
     scroll_speed (decrease_scroll_speed s) = max (scroll_speed s - 1) 1 \<and>
     1 \<le> scroll_speed (decrease_scroll_speed s) \<and>
     scroll_speed (decrease_scroll_speed s) \<le> 10 \<and>
     scroll_speed (scroll_slider_setValue v s) = qBound 1 v 10 \<and>
     1 \<le> scroll_speed (scroll_slider_setValue v s) \<and>
     scroll_speed (scroll_slider_setValue v s) \<le> 10 \<and>
     (1 \<le> v \<and> v \<le> 10 \<longrightarrow> scroll_speed (change_scroll_speed v s) = v)"
proof -
  from assms have ok: "speed_ok s"
    using reachable_ok state_ok_def by blast
  then have range: "1 \<le> scroll_speed s \<and> scroll_speed s \<le> 10"
    by (simp add: speed_ok_def)
  show ?thesis
    using range
    by (simp add: increase_scroll_speed_value [OF ok] decrease_scroll_speed_value [OF ok]
        scroll_slider_setValue_value [OF ok] qBound_def change_scroll_speed_def)
qed

lemma reachable_speed_up: "reachable s \<Longrightarrow> reachable (increase_scroll_speed s)"
  using reachable_step [of s "ShortcutActivated SpeedUpShortcut cancelled"] by simp

lemma reachable_slider_moved: "reachable s \<Longrightarrow> reachable (scroll_slider_setValue v s)"
  using reachable_step [of s "ScrollSliderMoved v"] by simp

lemma speed_after_slider_10: "scroll_speed (scroll_slider_setValue 10 init_state) = 10"
  by (simp add: scroll_slider_setValue_def change_scroll_speed_def slider_setValue_def
      qBound_def init_state_def Let_def)

theorem scroll_speed_in_range_witness:
  "reachable (scroll_slider_setValue 10 init_state) \<and>
   scroll_speed (scroll_slider_setValue 10 init_state) = 10 \<and>
   scroll_speed (increase_scroll_speed (scroll_slider_setValue 10 init_state)) = 10 \<and>
   scroll_speed (decrease_scroll_speed init_state) = 1 \<and>
   scroll_speed (scroll_slider_setValue 25 init_state) = 10 \<and>
   scroll_speed (change_scroll_speed 7 init_state) = 7"
  using scroll_speed_in_range [OF reachable_slider_moved [OF reachable_init, of 10], of 0]
    scroll_speed_in_range [OF reachable_init, of 25]
    scroll_speed_in_range [OF reachable_init, of 7]
    reachable_slider_moved [OF reachable_init, of 10] speed_after_slider_10
  by (simp add: qBound_def init_state_def)

section \<open>Lock and unlock\<close>

lemma toggle_lock_twice_flags:
  "controls_ok s \<Longrightarrow> control_flags (toggle_lock (toggle_lock s)) = control_flags s"
  by (simp add: controls_ok_def control_flags_def toggle_lock_def Let_def)

text \<open>
  C4. In every reachable state, \<open>toggle_lock\<close> applied twice gives every control the
  enabled flag, and the text surface the read-only flag, it had before, and restores the
  lock flag; the lock button and the scroll button are enabled before, in between and
  after.
\<close>

theorem lock_unlock_roundtrip:
  assumes "reachable s"
  shows "control_flags (toggle_lock (toggle_lock s)) = control_flags s \<and>
     locked (toggle_lock s) = (\<not> locked s) \<and>
     locked (toggle_lock (toggle_lock s)) = locked s \<and>
     lock_button_enabled s \<and> scroll_button_enabled s \<and>
     lock_button_enabled (toggle_lock s) \<and> scroll_button_enabled (toggle_lock s) \<and>
     lock_button_enabled (toggle_lock (toggle_lock s)) \<and>
     scroll_button_enabled (toggle_lock (toggle_lock s))"
proof -
  from assms have ok: "controls_ok s"
    using reachable_ok state_ok_def by blast
  have flip: "locked (toggle_lock t) = (\<not> locked t)" for t
    by (simp add: toggle_lock_def Let_def)
  have on: "lock_button_enabled (toggle_lock t) \<and> scroll_button_enabled (toggle_lock t)" for t
    by (simp add: toggle_lock_def Let_def)
  from ok have before: "lock_button_enabled s \<and> scroll_button_enabled s"
    by (simp add: controls_ok_def)
  show ?thesis
    using before on [of s] on [of "toggle_lock s"] toggle_lock_twice_flags [OF ok]
    by (simp add: flip)
qed

theorem lock_unlock_roundtrip_witness:
  "reachable init_state \<and>
   control_flags (toggle_lock (toggle_lock init_state)) = control_flags init_state \<and>
   control_flags init_state = (True, True, True, True, True, True, True, False) \<and>
   lock_button_enabled (toggle_lock init_state) \<and>
   scroll_button_enabled (toggle_lock init_state)"
  using lock_unlock_roundtrip [OF reachable_init] reachable_init
  by (simp add: control_flags_def init_state_def)

section \<open>Scrolling\<close>

lemma vscroll_by_value:
  "sl_value (vscroll (vscroll_by d s)) =
     qBound (sl_minimum (vscroll s)) (sl_value (vscroll s) + d) (sl_maximum (vscroll s))"
  by (simp add: vscroll_by_def slider_setValue_def)

lemma vscroll_by_frame:
  "sl_minimum (vscroll (vscroll_by d s)) = sl_minimum (vscroll s)"
  "sl_maximum (vscroll (vscroll_by d s)) = sl_maximum (vscroll s)"
  "scroll_speed (vscroll_by d s) = scroll_speed s"
  "scroll_timer_active (vscroll_by d s) = scroll_timer_active s"
  "scrolling (vscroll_by d s) = scrolling s"
  "locked (vscroll_by d s) = locked s"
  by (simp_all add: vscroll_by_def slider_setValue_def)

lemma vscroll_by_in_range:
  "sl_minimum (vscroll s) \<le> sl_value (vscroll s) + d \<Longrightarrow>
   sl_value (vscroll s) + d \<le> sl_maximum (vscroll s) \<Longrightarrow>
   sl_value (vscroll (vscroll_by d s)) = sl_value (vscroll s) + d"
  by (simp add: vscroll_by_value qBound_def)

lemma toggle_scrolling_starts:
  "\<not> scrolling s \<Longrightarrow>
   scrolling (toggle_scrolling s) \<and> scroll_timer_active (toggle_scrolling s) \<and>
   scroll_timer_interval (toggle_scrolling s) = 50 \<and>
   vscroll (toggle_scrolling s) = vscroll s \<and>
   scroll_speed (toggle_scrolling s) = scroll_speed s"
  by (simp add: toggle_scrolling_def Let_def)

lemma timer_timeout_active:
  "scroll_timer_active s \<Longrightarrow> timer_timeout s = vscroll_by (scroll_speed s) s"
  by (simp add: timer_timeout_def auto_scroll_def)

text \<open>
  While the timer runs and the scroll bar has room, \<open>n\<close> timeouts advance the offset by
  \<open>n\<close> times the speed.
\<close>

lemma ticks_advance:
  "scroll_timer_active s \<Longrightarrow> 0 \<le> scroll_speed s \<Longrightarrow>
   sl_minimum (vscroll s) \<le> sl_value (vscroll s) \<Longrightarrow>
   sl_value (vscroll s) + int n * scroll_speed s \<le> sl_maximum (vscroll s) \<Longrightarrow>
   sl_value (vscroll (ticks n s)) = sl_value (vscroll s) + int n * scroll_speed s"
proof (induction n arbitrary: s)
  case 0
  then show ?case by simp
next
  case (Suc n)
  let ?t = "vscroll_by (scroll_speed s) s"
  have more: "0 \<le> int n * scroll_speed s"
    using Suc.prems(2) by simp
  have room: "sl_value (vscroll s) + scroll_speed s \<le> sl_maximum (vscroll s)"
    using Suc.prems(4) more by (simp add: algebra_simps)
  have one: "sl_value (vscroll ?t) = sl_value (vscroll s) + scroll_speed s"
    using Suc.prems(2,3) room by (simp add: vscroll_by_in_range)
  have "sl_value (vscroll (ticks n ?t)) = sl_value (vscroll ?t) + int n * scroll_speed ?t"
  proof (rule Suc.IH)
    show "scroll_timer_active ?t"
      using Suc.prems(1) by (simp add: vscroll_by_frame)
    show "0 \<le> scroll_speed ?t"
      using Suc.prems(2) by (simp add: vscroll_by_frame)
    show "sl_minimum (vscroll ?t) \<le> sl_value (vscroll ?t)"
      using Suc.prems(2,3) by (simp add: one vscroll_by_frame)
    show "sl_value (vscroll ?t) + int n * scroll_speed ?t \<le> sl_maximum (vscroll ?t)"
      using Suc.prems(4) by (simp add: one vscroll_by_frame algebra_simps)
  qed
  then show ?case
    using Suc.prems(1) by (simp add: timer_timeout_active one vscroll_by_frame algebra_simps)
qed

text \<open>
  C5, as the spec states it: with auto-scroll running at speed \<open>s\<close>, each of five
  timeouts in a row advances the offset by exactly \<open>s\<close>. It fails where the scroll bar
  ends: on a text whose scroll bar has the range \<open>0..3\<close>, five timeouts at speed 1,
  started at offset 0, leave the offset at 3.
\<close>

theorem auto_scroll_stops_at_maximum:
  "scroll_timer_active (toggle_scrolling short_text_state) \<and>
   scroll_speed (toggle_scrolling short_text_state) = 1 \<and>
   sl_value (vscroll (toggle_scrolling short_text_state)) = 0 \<and>
   sl_value (vscroll (ticks 5 (toggle_scrolling short_text_state))) = 3"
  by (simp add: eval_nat_numeral timer_timeout_def auto_scroll_def vscroll_by_def
      toggle_scrolling_def short_text_state_def init_state_def slider_setRange_def
      slider_setValue_def qBound_def Let_def)

text \<open>
  C5, amended. \<open>toggle_scrolling\<close> from the idle state starts the timer with a period of
  50 ms. With a speed in \<open>[1, 10]\<close>, each timeout sets the offset to the offset plus the
  speed, forced into the range of the scroll bar; and as long as the offset plus \<open>n\<close>
  times the speed does not pass the maximum, \<open>k \<le> n\<close> timeouts in a row advance the
  offset by exactly \<open>k\<close> times the speed.
\<close>

theorem auto_scroll_advance:
  assumes "\<not> scrolling s" and "1 \<le> scroll_speed s" and "scroll_speed s \<le> 10"
    and "sl_minimum (vscroll s) \<le> sl_value (vscroll s)"
    and "sl_value (vscroll s) + int n * scroll_speed s \<le> sl_maximum (vscroll s)"
    and "k \<le> n"
  shows "scroll_timer_active (toggle_scrolling s) \<and>
     scroll_timer_interval (toggle_scrolling s) = 50 \<and>
     sl_value (vscroll (timer_timeout (toggle_scrolling s))) =
       qBound (sl_minimum (vscroll s)) (sl_value (vscroll s) + scroll_speed s)
         (sl_maximum (vscroll s)) \<and>
     sl_value (vscroll (ticks k (toggle_scrolling s))) =
       sl_value (vscroll s) + int k * scroll_speed s"
proof -
  let ?t = "toggle_scrolling s"
  note start = toggle_scrolling_starts [OF assms(1)]
  have "int k * scroll_speed s \<le> int n * scroll_speed s"
    using assms(2,6) by (simp add: mult_right_mono)
  then have room: "sl_value (vscroll ?t) + int k * scroll_speed ?t \<le> sl_maximum (vscroll ?t)"
    using assms(5) start by simp
  have "sl_value (vscroll (ticks k ?t)) = sl_value (vscroll ?t) + int k * scroll_speed ?t"
    using start assms(2,4) room by (intro ticks_advance) simp_all
  moreover have "sl_value (vscroll (timer_timeout ?t)) =
      qBound (sl_minimum (vscroll s)) (sl_value (vscroll s) + scroll_speed s)
        (sl_maximum (vscroll s))"
    using start by (simp add: timer_timeout_active vscroll_by_value)
  ultimately show ?thesis
    using start by simp
qed

lemma long_text_state_facts:
  "\<not> scrolling long_text_state" "scroll_speed long_text_state = 1"
  "sl_minimum (vscroll long_text_state) = 0" "sl_maximum (vscroll long_text_state) = 100"
  "sl_value (vscroll long_text_state) = 0" "\<not> locked long_text_state"
  by (simp_all add: long_text_state_def init_state_def slider_setRange_def
      slider_setValue_def qBound_def)

theorem auto_scroll_advance_witness:
  "\<not> scrolling long_text_state \<and> scroll_speed long_text_state = 1 \<and>
   sl_value (vscroll long_text_state) = 0 \<and> sl_maximum (vscroll long_text_state) = 100 \<and>
   scroll_timer_interval (toggle_scrolling long_text_state) = 50 \<and>
   sl_value (vscroll (timer_timeout (toggle_scrolling long_text_state))) = 1 \<and>
   sl_value (vscroll (ticks 5 (toggle_scrolling long_text_state))) = 5"
  using auto_scroll_advance [of long_text_state 5 5]
  by (simp add: long_text_state_facts qBound_def)

section \<open>Manual nudges\<close>

text \<open>
  C6, as the spec states it: Shift+Up changes the offset by exactly \<open>- 10\<close>. It fails at
  the top of the text: with the window not locked and the offset at 0, the minimum of
  the scroll bar, a press of Shift+Up is dispatched to \<open>scroll_up\<close> and leaves the offset
  at 0.
\<close>

theorem nudge_up_at_top_stays:
  "\<not> locked long_text_state \<and> sl_value (vscroll long_text_state) = 0 \<and>
   sl_value (vscroll (snd (eventFilter (key_press Key_Up {ShiftModifier}) cancelled
     long_text_state))) = 0"
  by (simp add: long_text_state_facts eventFilter_unlocked_dispatch scroll_up_def
      vscroll_by_value qBound_def)

text \<open>
  C6, amended. \<open>scroll_up\<close> and \<open>scroll_down\<close> set the offset to the offset minus 10 and
  plus 10, forced into the range of the scroll bar; where that target is in the range
  the change is exactly \<open>- 10\<close> and \<open>+ 10\<close>. The result does not depend on the speed or
  on auto-scroll running. While the window is not locked the event filter dispatches
  Shift+Up and Shift+Down to them; while it is locked it consumes both keys and leaves
  the state as it is.
\<close>

theorem manual_nudge:
  "sl_value (vscroll (scroll_up s)) =
     qBound (sl_minimum (vscroll s)) (sl_value (vscroll s) - 10) (sl_maximum (vscroll s)) \<and>
   sl_value (vscroll (scroll_down s)) =
     qBound (sl_minimum (vscroll s)) (sl_value (vscroll s) + 10) (sl_maximum (vscroll s)) \<and>
   (sl_minimum (vscroll s) \<le> sl_value (vscroll s) - 10 \<and>
    sl_value (vscroll s) - 10 \<le> sl_maximum (vscroll s) \<longrightarrow>
      sl_value (vscroll (scroll_up s)) = sl_value (vscroll s) - 10) \<and>
   (sl_minimum (vscroll s) \<le> sl_value (vscroll s) + 10 \<and>
    sl_value (vscroll s) + 10 \<le> sl_maximum (vscroll s) \<longrightarrow>
      sl_value (vscroll (scroll_down s)) = sl_value (vscroll s) + 10) \<and>
   vscroll (scroll_up (s\<lparr>scroll_speed := v, scrolling := b, scroll_timer_active := b\<rparr>)) =
     vscroll (scroll_up s) \<and>
   vscroll (scroll_down (s\<lparr>scroll_speed := v, scrolling := b, scroll_timer_active := b\<rparr>)) =
     vscroll (scroll_down s) \<and>
   (\<not> locked s \<longrightarrow>
      eventFilter (key_press Key_Up {ShiftModifier}) a s = (True, scroll_up s) \<and>
      eventFilter (key_press Key_Down {ShiftModifier}) a s = (True, scroll_down s)) \<and>
   (locked s \<longrightarrow>
      eventFilter (key_press Key_Up {ShiftModifier}) a s = (True, s) \<and>
      eventFilter (key_press Key_Down {ShiftModifier}) a s = (True, s))"
proof -
  have offsets:
    "sl_value (vscroll (scroll_up s)) =
       qBound (sl_minimum (vscroll s)) (sl_value (vscroll s) - 10) (sl_maximum (vscroll s))"
    "sl_value (vscroll (scroll_down s)) =
       qBound (sl_minimum (vscroll s)) (sl_value (vscroll s) + 10) (sl_maximum (vscroll s))"
    by (simp_all add: scroll_up_def scroll_down_def vscroll_by_value)
  have independent:
    "vscroll (scroll_up (s\<lparr>scroll_speed := v, scrolling := b, scroll_timer_active := b\<rparr>)) =
       vscroll (scroll_up s)"
    "vscroll (scroll_down (s\<lparr>scroll_speed := v, scrolling := b, scroll_timer_active := b\<rparr>)) =
       vscroll (scroll_down s)"
    by (simp_all add: scroll_up_def scroll_down_def vscroll_by_def)
  have unlocked:
    "eventFilter (key_press Key_Up {ShiftModifier}) a s = (True, scroll_up s) \<and>
     eventFilter (key_press Key_Down {ShiftModifier}) a s = (True, scroll_down s)"
    if "\<not> locked s"
    using that by (simp add: eventFilter_unlocked_dispatch)
  have locked:
    "eventFilter (key_press Key_Up {ShiftModifier}) a s = (True, s) \<and>
     eventFilter (key_press Key_Down {ShiftModifier}) a s = (True, s)"
    if "locked s"
    using that by (simp add: eventFilter_locked_consumes key_press_def)
  show ?thesis
    using unlocked locked by (simp add: offsets independent qBound_def)
qed

lemma middle_of_long_text_facts:
  "sl_minimum (vscroll (vscroll_by 50 long_text_state)) = 0"
  "sl_maximum (vscroll (vscroll_by 50 long_text_state)) = 100"
  "sl_value (vscroll (vscroll_by 50 long_text_state)) = 50"
  "\<not> locked (vscroll_by 50 long_text_state)"
  by (simp_all add: vscroll_by_frame vscroll_by_value long_text_state_facts qBound_def)

lemma locked_long_text_facts:
  "locked (toggle_lock long_text_state)"
  by (simp add: toggle_lock_def Let_def long_text_state_facts)

text \<open>
  The slots of the shortcut objects make no test of the lock flag. Whether the toolkit
  hands a key to the shortcut object or to the event filter is its own business; where
  it activates the shortcut object of Shift+Down on a locked window, the offset moves.
\<close>

lemma shortcut_slot_ignores_lock:
  "locked (toggle_lock long_text_state) \<and>
   shortcut_sequence ScrollDownShortcut = (Key_Down, {ShiftModifier}) \<and>
   sl_value (vscroll (toggle_lock long_text_state)) = 0 \<and>
   sl_value (vscroll (shortcut_slot ScrollDownShortcut cancelled
     (toggle_lock long_text_state))) = 10"
proof -
  have same: "vscroll (toggle_lock long_text_state) = vscroll long_text_state"
    by (simp add: toggle_lock_def Let_def)
  show ?thesis
    by (simp add: locked_long_text_facts scroll_down_def vscroll_by_value same
        long_text_state_facts qBound_def)
qed

theorem manual_nudge_witness:
  "\<not> locked (vscroll_by 50 long_text_state) \<and>
   sl_value (vscroll (scroll_up (vscroll_by 50 long_text_state))) = 40 \<and>
   sl_value (vscroll (scroll_down (vscroll_by 50 long_text_state))) = 60 \<and>
   eventFilter (key_press Key_Up {ShiftModifier}) cancelled (vscroll_by 50 long_text_state) =
     (True, scroll_up (vscroll_by 50 long_text_state)) \<and>
   locked (toggle_lock long_text_state) \<and>
   eventFilter (key_press Key_Up {ShiftModifier}) cancelled (toggle_lock long_text_state) =
     (True, toggle_lock long_text_state)"
  using manual_nudge [where s = "vscroll_by 50 long_text_state" and a = cancelled]
    manual_nudge [where s = "toggle_lock long_text_state" and a = cancelled]
  by (simp add: middle_of_long_text_facts locked_long_text_facts qBound_def)

section \<open>Shortcut objects on a locked window\<close>

text \<open>
  C2. The claim: in every reachable state the lock button and the scroll button are
  enabled and Ctrl+L and Ctrl+S reach \<open>toggle_lock\<close> and \<open>toggle_scrolling\<close>, and while
  the window is locked every other shortcut is not dispatched and changes no state. The
  first half holds (\<open>always_escapable\<close>). The second half is what the event filter does,
  and what its comment says (block every other shortcut while locked), but the shortcut
  objects of \<open>setup_shortcuts\<close> stay enabled and their slots do not test the lock flag.
  On the window locked right after start-up, the shortcut object of Ctrl+H hides the
  control strip and the one of Ctrl+Up takes the speed from 1 to 2, while the event
  filter, handed the same Ctrl+H, consumes it and changes nothing.
\<close>

theorem locked_shortcut_objects_still_act:
  "reachable (toggle_lock init_state) \<and> locked (toggle_lock init_state) \<and>
   shortcut_sequence HideControlsShortcut = (Key_H, {ControlModifier}) \<and>
   step (ShortcutActivated HideControlsShortcut cancelled) (toggle_lock init_state) =
     Inr (toggle_controls (toggle_lock init_state)) \<and>
   control_panel_visible (toggle_lock init_state) \<and>
   \<not> control_panel_visible (toggle_controls (toggle_lock init_state)) \<and>
   shortcut_sequence SpeedUpShortcut = (Key_Up, {ControlModifier}) \<and>
   step (ShortcutActivated SpeedUpShortcut cancelled) (toggle_lock init_state) =
     Inr (increase_scroll_speed (toggle_lock init_state)) \<and>
   scroll_speed (toggle_lock init_state) = 1 \<and>
   scroll_speed (increase_scroll_speed (toggle_lock init_state)) = 2 \<and>
   eventFilter (key_press Key_H {ControlModifier}) cancelled (toggle_lock init_state) =
     (True, toggle_lock init_state)"
proof -
  have shown: "control_panel_visible (toggle_lock init_state)"
    by (simp add: toggle_lock_def init_state_def Let_def)
  then have hidden: "\<not> control_panel_visible (toggle_controls (toggle_lock init_state))"
    by (simp add: toggle_controls_def)
  have slow: "scroll_speed (toggle_lock init_state) = 1"
    by (simp add: toggle_lock_def init_state_def Let_def)
  have "speed_ok (toggle_lock init_state)"
    using reachable_ok [OF reachable_locked_init] by (simp add: state_ok_def)
  then have faster: "scroll_speed (increase_scroll_speed (toggle_lock init_state)) = 2"
    using slow by (simp add: increase_scroll_speed_value)
  have filtered:
    "eventFilter (key_press Key_H {ControlModifier}) cancelled (toggle_lock init_state) =
       (True, toggle_lock init_state)"
    by (simp add: eventFilter_locked_consumes locked_after_first_lock key_press_def)
  show ?thesis
    using reachable_locked_init locked_after_first_lock shown hidden slow faster filtered
    by simp
qed

section \<open>Pointer release\<close>

text \<open>
  C9, as the spec states it: after every release event both gesture flags are false. It
  fails for a release of a button other than the left one, which the handler ignores: a
  drag started with the left button is still on after the right button is released, and
  a resize started by a right press on the corner is still on after that button is
  released.
\<close>

theorem release_of_right_button_keeps_flags:
  "dragging (mouseReleaseEvent right_release (mousePressEvent middle_press False init_state)) \<and>
   resizing (mouseReleaseEvent right_release_corner
     (mousePressEvent corner_press_right False init_state)) = Some True"
  by (simp add: mouseReleaseEvent_def mousePressEvent_def in_corner_def corner_size_def
      right_release_def right_release_corner_def middle_press_def corner_press_right_def
      init_state_def Let_def)

text \<open>
  C9, amended. After a release of the left button, in every state, the dragging flag is
  false and the resizing flag is not true: it is false if the attribute exists and
  still absent otherwise.
\<close>

theorem left_release_clears_flags:
  assumes "me_button e = LeftButton"
  shows "\<not> dragging (mouseReleaseEvent e s) \<and>
     resizing (mouseReleaseEvent e s) \<noteq> Some True \<and>
     resizing (mouseReleaseEvent e s) = (if resizing s = None then None else Some False)"
  using assms by (simp add: mouseReleaseEvent_def Let_def)

theorem left_release_clears_flags_witness:
  "me_button left_release = LeftButton \<and>
   \<not> dragging (mouseReleaseEvent left_release
      (mousePressEvent middle_press False init_state)) \<and>
   resizing (mouseReleaseEvent left_release
      (mousePressEvent corner_press False init_state)) = Some False"
proof -
  have b: "me_button left_release = LeftButton"
    by (simp add: left_release_def)
  have r: "resizing (mousePressEvent corner_press False init_state) = Some True"
    by (simp add: mousePressEvent_def in_corner_def corner_size_def corner_press_def
        init_state_def)
  show ?thesis
    using b r
      left_release_clears_flags [OF b, of "mousePressEvent middle_press False init_state"]
      left_release_clears_flags [OF b, of "mousePressEvent corner_press False init_state"]
    by simp
qed

section \<open>Resize and drag\<close>

lemma press_in_corner:
  "resize_enabled s \<Longrightarrow> in_corner e s \<Longrightarrow>
   mousePressEvent e b s =
     s\<lparr>win_cursor := SizeFDiagCursor, dragging := False, resizing := Some True,
       resize_start_pos := Some (me_global e), resize_start_size := Some (win_size s)\<rparr>"
  by (simp add: mousePressEvent_def)

lemma reachable_press: "reachable s \<Longrightarrow> reachable (mousePressEvent e b s)"
  using reachable_step [of s "MousePress e b"] by simp

text \<open>
  C7. In every reachable state with a resize going on and the left button held, a
  pointer move sets the size of the window to the size recorded at the start of the
  gesture plus the distance of the pointer from where the gesture started, each of
  width and height being at least 300 and 200; so the width is never below 300 and the
  height never below 200, whatever the distance.
\<close>

theorem resize_move_floor:
  assumes "reachable s" and "resize_active e s"
  shows "\<exists>p z. resize_start_pos s = Some p \<and> resize_start_size s = Some z \<and>
     mouseMoveEvent e s =
       Inr (s\<lparr>win_size := (max 300 (fst z + (fst (me_global e) - fst p)),
                            max 200 (snd z + (snd (me_global e) - snd p)))\<rparr>) \<and>
     300 \<le> max 300 (fst z + (fst (me_global e) - fst p)) \<and>
     200 \<le> max 200 (snd z + (snd (me_global e) - snd p))"
proof -
  from assms(1) have ok: "state_ok s" by (rule reachable_ok)
  then have mins: "minimum_width s = 300" "minimum_height s = 200"
    by (simp_all add: state_ok_def geometry_ok_def)
  from ok assms(2) obtain p z
    where starts: "resize_start_pos s = Some p" "resize_start_size s = Some z"
    using resize_active_starts by blast
  have "mouseMoveEvent e s =
      Inr (s\<lparr>win_size := (max 300 (fst z + (fst (me_global e) - fst p)),
                           max 200 (snd z + (snd (me_global e) - snd p)))\<rparr>)"
    using mouseMoveEvent_resize [OF assms(2) starts] mins by simp
  with starts show ?thesis by simp
qed

lemma after_corner_press:
  "mousePressEvent corner_press False init_state =
     init_state\<lparr>win_cursor := SizeFDiagCursor, dragging := False, resizing := Some True,
       resize_start_pos := Some (695, 495), resize_start_size := Some (600, 400)\<rparr>"
  by (simp add: mousePressEvent_def in_corner_def corner_size_def corner_press_def
      init_state_def)

lemma far_move_resizes:
  "resize_active far_move (mousePressEvent corner_press False init_state)"
  by (simp add: after_corner_press resize_active_def far_move_def) (simp add: init_state_def)

theorem resize_move_floor_witness:
  "reachable (mousePressEvent corner_press False init_state) \<and>
   resize_active far_move (mousePressEvent corner_press False init_state) \<and>
   me_global far_move = (0, 0) \<and>
   mouseMoveEvent far_move (mousePressEvent corner_press False init_state) =
     Inr ((mousePressEvent corner_press False init_state)\<lparr>win_size := (300, 200)\<rparr>)"
proof -
  have r: "reachable (mousePressEvent corner_press False init_state)"
    by (rule reachable_press) (rule reachable_init)
  have g: "me_global far_move = (0, 0)"
    by (simp add: far_move_def)
  have p: "resize_start_pos (mousePressEvent corner_press False init_state) = Some (695, 495)"
    and z: "resize_start_size (mousePressEvent corner_press False init_state) = Some (600, 400)"
    by (simp_all add: after_corner_press)
  show ?thesis
    using resize_move_floor [OF r far_move_resizes] r far_move_resizes g p z
    by auto
qed

lemma press_locked_frame:
  "locked s \<Longrightarrow>
   win_pos (mousePressEvent e b s) = win_pos s \<and>
   drag_position (mousePressEvent e b s) = drag_position s \<and>
   (dragging (mousePressEvent e b s) \<longrightarrow> dragging s)"
  by (simp add: mousePressEvent_def toggle_lock_def Let_def)

lemma hover_cursor_frame:
  "win_pos (hover_cursor e s) = win_pos s" "dragging (hover_cursor e s) = dragging s"
  "scrolling (hover_cursor e s) = scrolling s"
  "scroll_timer_active (hover_cursor e s) = scroll_timer_active s"
  by (simp_all add: hover_cursor_def)

lemma move_locked_frame:
  assumes "state_ok s" and "locked s"
  shows "\<exists>s'. mouseMoveEvent e s = Inr s' \<and> win_pos s' = win_pos s \<and> dragging s' = dragging s"
proof (cases "resize_active e s")
  case True
  with assms(1) obtain p z where "resize_start_pos s = Some p" "resize_start_size s = Some z"
    using resize_active_starts by blast
  with True show ?thesis by (simp add: mouseMoveEvent_resize)
next
  case False
  moreover have "\<not> drag_active e s"
    using assms(2) by (simp add: drag_active_def)
  ultimately show ?thesis
    by (simp add: mouseMoveEvent_hover hover_cursor_frame)
qed

text \<open>
  The hot spot: the square of 20 by 20 units in the bottom right corner of the window.
\<close>

lemma hot_spot_in_corner:
  "fst (win_size s) - 20 \<le> me_x e \<Longrightarrow> snd (win_size s) - 20 \<le> me_y e \<Longrightarrow> in_corner e s"
  by (simp add: in_corner_def corner_size_def)

text \<open>
  C8. In every reachable state with the lock flag set, a mouse press leaves the origin
  of the window and the recorded drag offset as they are and does not set the dragging
  flag, and a mouse move returns with the origin and the dragging flag as they are. A
  press inside the hot spot still starts a resize: it sets the resizing flag and records
  the position of the pointer and the size of the window, and the window stays locked.
\<close>

theorem locked_never_drags:
  assumes "reachable s" and "locked s"
  shows "win_pos (mousePressEvent e b s) = win_pos s \<and>
     drag_position (mousePressEvent e b s) = drag_position s \<and>
     (dragging (mousePressEvent e b s) \<longrightarrow> dragging s) \<and>
     (\<exists>s'. mouseMoveEvent m s = Inr s' \<and> win_pos s' = win_pos s \<and>
        dragging s' = dragging s) \<and>
     (fst (win_size s) - 20 \<le> me_x e \<and> me_x e < fst (win_size s) \<and>
      snd (win_size s) - 20 \<le> me_y e \<and> me_y e < snd (win_size s) \<longrightarrow>
        resizing (mousePressEvent e b s) = Some True \<and>
        \<not> dragging (mousePressEvent e b s) \<and>
        resize_start_pos (mousePressEvent e b s) = Some (me_global e) \<and>
        resize_start_size (mousePressEvent e b s) = Some (win_size s) \<and>
        locked (mousePressEvent e b s))"
proof -
  from assms(1) have ok: "state_ok s" by (rule reachable_ok)
  then have en: "resize_enabled s"
    by (simp add: state_ok_def geometry_ok_def)
  have corner:
    "resizing (mousePressEvent e b s) = Some True \<and>
     \<not> dragging (mousePressEvent e b s) \<and>
     resize_start_pos (mousePressEvent e b s) = Some (me_global e) \<and>
     resize_start_size (mousePressEvent e b s) = Some (win_size s) \<and>
     locked (mousePressEvent e b s)"
    if "fst (win_size s) - 20 \<le> me_x e" "snd (win_size s) - 20 \<le> me_y e"
    using assms(2) by (simp add: press_in_corner [OF en hot_spot_in_corner [OF that]])
  show ?thesis
    using press_locked_frame [OF assms(2), of e b] move_locked_frame [OF ok assms(2), of m]
      corner
    by simp
qed

lemma corner_press_position:
  "me_x corner_press = 595" "me_y corner_press = 395" "me_global corner_press = (695, 495)"
  by (simp_all add: corner_press_def)

lemma locked_init_geometry:
  "win_size (toggle_lock init_state) = (600, 400)"
  "win_pos (toggle_lock init_state) = (100, 100)"
  by (simp_all add: toggle_lock_def init_state_def Let_def)

theorem locked_never_drags_witness:
  "reachable (toggle_lock init_state) \<and> locked (toggle_lock init_state) \<and>
   win_pos (mousePressEvent middle_press False (toggle_lock init_state)) = (100, 100) \<and>
   resizing (mousePressEvent corner_press False (toggle_lock init_state)) = Some True \<and>
   resize_start_size (mousePressEvent corner_press False (toggle_lock init_state)) =
     Some (600, 400) \<and>
   locked (mousePressEvent corner_press False (toggle_lock init_state))"
  using locked_never_drags [OF reachable_locked_init locked_after_first_lock,
      where e = middle_press and b = False and m = far_move]
    locked_never_drags [OF reachable_locked_init locked_after_first_lock,
      where e = corner_press and b = False and m = far_move]
    reachable_locked_init locked_after_first_lock
  by (simp add: locked_init_geometry corner_press_position)

section \<open>The timer and the scrolling flag\<close>

text \<open>Every slot but \<open>toggle_scrolling\<close> leaves the scrolling flag and the timer alone.\<close>

lemma same_scrolling_refl: "same_scrolling s s"
  by (simp add: same_scrolling_def)

lemma toggle_lock_same: "same_scrolling s (toggle_lock s)"
  by (simp add: same_scrolling_def toggle_lock_def Let_def)

lemma vscroll_by_same: "same_scrolling s (vscroll_by d s)"
  by (simp add: same_scrolling_def vscroll_by_frame)

lemma scroll_slider_setValue_same: "same_scrolling s (scroll_slider_setValue v s)"
  by (simp add: same_scrolling_def scroll_slider_setValue_def change_scroll_speed_def Let_def)

lemma increase_scroll_speed_same: "same_scrolling s (increase_scroll_speed s)"
  by (simp add: same_scrolling_def increase_scroll_speed_def scroll_slider_setValue_def
      change_scroll_speed_def Let_def)

lemma decrease_scroll_speed_same: "same_scrolling s (decrease_scroll_speed s)"
  by (simp add: same_scrolling_def decrease_scroll_speed_def scroll_slider_setValue_def
      change_scroll_speed_def Let_def)

lemma change_font_family_same: "same_scrolling s (change_font_family f s)"
  by (simp add: same_scrolling_def change_font_family_def)

lemma size_slider_setValue_same: "same_scrolling s (size_slider_setValue v s)"
  by (simp add: same_scrolling_def size_slider_setValue_def change_font_size_def Let_def)

lemma change_font_color_same: "same_scrolling s (change_font_color a s)"
  by (simp add: same_scrolling_def change_font_color_def Let_def)

lemma trans_slider_setValue_same: "same_scrolling s (trans_slider_setValue v s)"
  by (simp add: same_scrolling_def trans_slider_setValue_def change_transparency_def Let_def)

lemma toggle_controls_same: "same_scrolling s (toggle_controls s)"
  by (simp add: same_scrolling_def toggle_controls_def)

lemma emergency_unlock_same: "same_scrolling s (emergency_unlock s)"
  by (simp add: emergency_unlock_def toggle_lock_same same_scrolling_refl)

lemma timer_timeout_same: "same_scrolling s (timer_timeout s)"
  by (simp add: timer_timeout_def auto_scroll_def vscroll_by_same same_scrolling_refl)

lemma mousePressEvent_same: "same_scrolling s (mousePressEvent e b s)"
  by (simp add: mousePressEvent_def toggle_lock_same same_scrolling_refl)
    (simp add: same_scrolling_def)

lemma mouseReleaseEvent_same: "same_scrolling s (mouseReleaseEvent e s)"
  by (simp add: same_scrolling_def mouseReleaseEvent_def Let_def)

lemma mouseMoveEvent_same:
  assumes "mouseMoveEvent e s = Inr s'"
  shows "same_scrolling s s'"
proof (cases "resize_active e s")
  case True
  with assms show ?thesis
    by (auto simp: mouseMoveEvent_def same_scrolling_def Let_def split: option.splits)
next
  case nores: False
  show ?thesis
  proof (cases "drag_active e s")
    case True
    with nores assms show ?thesis
      by (auto simp: mouseMoveEvent_def same_scrolling_def hover_cursor_frame
          split: option.splits)
  next
    case False
    with nores assms show ?thesis
      by (auto simp: mouseMoveEvent_hover same_scrolling_def hover_cursor_frame)
  qed
qed

lemma shortcut_slot_same:
  "sc \<noteq> ScrollShortcut \<Longrightarrow> same_scrolling s (shortcut_slot sc a s)"
  by (cases sc)
    (simp_all add: toggle_lock_same change_font_color_same increase_scroll_speed_same
      decrease_scroll_speed_same scroll_up_def scroll_down_def vscroll_by_same
      toggle_controls_same emergency_unlock_same)

lemma eventFilter_same:
  "\<not> toggles_scrolling (KeyEvent ev a) \<Longrightarrow> same_scrolling s (snd (eventFilter ev a s))"
  by (auto simp: eventFilter_def toggle_lock_same change_font_color_same
      increase_scroll_speed_same decrease_scroll_speed_same scroll_up_def scroll_down_def
      vscroll_by_same toggle_controls_same same_scrolling_refl)

lemma eventFilter_scroll_press:
  "ev_type ev = KeyPress \<Longrightarrow> ev_key ev = Key_S \<Longrightarrow> ev_modifiers ev = {ControlModifier} \<Longrightarrow>
   snd (eventFilter ev a s) = toggle_scrolling s"
  by (simp add: eventFilter_def)

lemma step_same:
  assumes "step e s = Inr s'" and "\<not> toggles_scrolling e"
  shows "same_scrolling s s'"
proof (cases e)
  case (KeyEvent ev a)
  with assms(1) have "s' = snd (eventFilter ev a s)" by simp
  with assms(2) KeyEvent show ?thesis using eventFilter_same by blast
next
  case (ShortcutActivated sc a)
  with assms have "s' = shortcut_slot sc a s" and "sc \<noteq> ScrollShortcut" by auto
  then show ?thesis by (simp add: shortcut_slot_same)
next
  case (MouseMove m)
  with assms have "mouseMoveEvent m s = Inr s'" by simp
  then show ?thesis by (rule mouseMoveEvent_same)
next
  case (ScrollRangeChanged lo hi)
  with assms show ?thesis by (auto simp: same_scrolling_def)
next
  case (ScrollBarMoved v)
  with assms show ?thesis by (auto simp: same_scrolling_def)
next
  case (SizeGripResized w h)
  with assms show ?thesis by (auto simp: same_scrolling_def)
qed (use assms in \<open>auto simp: toggle_lock_same change_font_color_same change_font_family_same
      size_slider_setValue_same trans_slider_setValue_same scroll_slider_setValue_same
      timer_timeout_same mousePressEvent_same mouseReleaseEvent_same\<close>)

lemma step_toggles:
  "step e s = Inr s' \<Longrightarrow> toggles_scrolling e \<Longrightarrow> s' = toggle_scrolling s"
  by (cases e) (auto simp: eventFilter_scroll_press)

lemma toggle_scrolling_flips:
  "scrolling (toggle_scrolling s) = (\<not> scrolling s) \<and>
   scroll_timer_active (toggle_scrolling s) = (\<not> scrolling s) \<and>
   (\<not> scrolling s \<longrightarrow> scroll_timer_interval (toggle_scrolling s) = 50)"
  by (simp add: toggle_scrolling_def Let_def)

text \<open>
  C10. The state after construction has the scrolling flag false and the timer stopped.
  In every reachable state the timer runs exactly when the scrolling flag is set;
  \<open>toggle_scrolling\<close> flips the flag and makes the timer run exactly when the new flag is
  true, with a period of 50 ms; an event that calls \<open>toggle_scrolling\<close> does just that,
  and every other event leaves both the flag and the timer as they are.
\<close>

theorem timer_runs_iff_scrolling:
  assumes "reachable s"
  shows "\<not> scrolling init_state \<and> \<not> scroll_timer_active init_state \<and>
     scroll_timer_active s = scrolling s \<and>
     scrolling (toggle_scrolling s) = (\<not> scrolling s) \<and>
     scroll_timer_active (toggle_scrolling s) = (\<not> scrolling s) \<and>
     (\<not> scrolling s \<longrightarrow> scroll_timer_interval (toggle_scrolling s) = 50) \<and>
     (\<forall>e s'. step e s = Inr s' \<longrightarrow>
        (if toggles_scrolling e then s' = toggle_scrolling s
         else scrolling s' = scrolling s \<and> scroll_timer_active s' = scroll_timer_active s))"
proof -
  have init: "\<not> scrolling init_state \<and> \<not> scroll_timer_active init_state"
    by (simp add: init_state_def)
  from assms have "timer_ok s"
    using reachable_ok state_ok_def by blast
  then have same: "scroll_timer_active s = scrolling s"
    by (simp add: timer_ok_def)
  have steps: "if toggles_scrolling e then s' = toggle_scrolling s
      else scrolling s' = scrolling s \<and> scroll_timer_active s' = scroll_timer_active s"
    if "step e s = Inr s'" for e s'
    using step_toggles [OF that] step_same [OF that] by (simp add: same_scrolling_def)
  show ?thesis
    using init same toggle_scrolling_flips [of s] steps by blast
qed

lemma reachable_scrolling_init: "reachable (toggle_scrolling init_state)"
  using reachable_step [OF reachable_init, of ScrollButtonClicked] by simp

theorem timer_runs_iff_scrolling_witness:
  "reachable (toggle_scrolling init_state) \<and>
   scrolling (toggle_scrolling init_state) \<and>
   scroll_timer_active (toggle_scrolling init_state) \<and>
   scroll_timer_interval (toggle_scrolling init_state) = 50 \<and>
   \<not> scroll_timer_active (toggle_scrolling (toggle_scrolling init_state)) \<and>
   scroll_timer_active (toggle_lock (toggle_scrolling init_state))"
proof -
  have s0: "\<not> scrolling init_state"
    by (simp add: init_state_def)
  have lock: "step LockButtonClicked (toggle_scrolling init_state) =
      Inr (toggle_lock (toggle_scrolling init_state))"
    by simp
  have quiet: "\<not> toggles_scrolling LockButtonClicked"
    by simp
  show ?thesis
    using timer_runs_iff_scrolling [OF reachable_init]
      timer_runs_iff_scrolling [OF reachable_scrolling_init]
      reachable_scrolling_init s0 lock quiet
    by metis
qed

end
